theory Spec2Isabelle
  imports Complex_Main "HOL-Library.AList" "HOL-Library.Char_ord" "HOL-Library.List_Lexorder"
begin

section \<open>Data model of \<open>permm/core/Species.py\<close>\<close>

text \<open>
  A Python \<open>dict\<close> is an association list in insertion order; its keys are unique, which
  the predicates \<open>wf_props\<close> and \<open>wf_species\<close> below state. The numbers a species
  stores (stoics and atom counts) are mathematical reals: rounding is not modelled.
  A role set is a set of the characters \<open>r\<close>, \<open>p\<close>, \<open>u\<close>.
\<close>

type_synonym atom_dict = "(string \<times> real) list"

record props =
  stoic :: real
  role :: "char set"
  atoms :: atom_dict

record species =
  name :: string
  exclude :: bool
  spc_dict :: "(string \<times> props) list"

text \<open>
  The argument of the constructor: a component record in which any of the three
  fields may be missing.
\<close>

record raw_props =
  r_stoic :: "real option"
  r_role :: "char set option"
  r_atoms :: "atom_dict option"

text \<open>
  The Python values that reach the operators, and the exceptions they raise. \<open>PyInt\<close> is
  a Python \<open>int\<close> (or \<open>bool\<close>), unbounded; \<open>PyFloat\<close> is a Python \<open>float\<close> or a numpy
  \<open>float32\<close> or \<open>float64\<close>, as a real; \<open>NpInt w v\<close> is the numpy scalar of the signed
  integer type of \<open>w\<close> bits (\<open>int8\<close>, \<open>int16\<close>, \<open>int32\<close>, \<open>int64\<close>) with the value \<open>v\<close>;
  \<open>PyOtherNum\<close> is a number of any other type (\<open>complex\<close>, \<open>Fraction\<close>, \<open>Decimal\<close>, the other
  numpy scalars).
\<close>

datatype pyval =
    PyInt int
  | PyFloat real
  | NpInt nat int
  | PyOtherNum
  | PyStr string
  | PySpecies species
  | PyNone

datatype error =
    TypeError string
  | ValueError string
  | OverflowError
  | KeyError
  | AttributeError

definition wf_props :: "props \<Rightarrow> bool" where
  "wf_props p = distinct (map fst (atoms p))"

definition wf_species :: "species \<Rightarrow> bool" where
  "wf_species s = (distinct (map fst (spc_dict s)) \<and> list_all (\<lambda>(n, p). wf_props p) (spc_dict s))"

section \<open>The constructor (dictionary argument)\<close>

fun join :: "string \<Rightarrow> string list \<Rightarrow> string" where
  "join sep [] = []"
| "join sep [x] = x"
| "join sep (x # y # ys) = x @ sep @ join sep (y # ys)"

text \<open>
  The loop at the end of \<open>Species.__init__\<close>: \<open>setdefault('stoic', 1)\<close>,
  \<open>role = set(props.get('role', 'rup'))\<close>, \<open>setdefault('atoms', {})\<close>.
\<close>

definition normalise :: "raw_props \<Rightarrow> props" where
  "normalise rp =
     \<lparr> stoic = (case r_stoic rp of None \<Rightarrow> 1 | Some v \<Rightarrow> v),
       role = (case r_role rp of None \<Rightarrow> set ''rup'' | Some r \<Rightarrow> r),
       atoms = (case r_atoms rp of None \<Rightarrow> [] | Some a \<Rightarrow> a) \<rparr>"

definition as_raw :: "props \<Rightarrow> raw_props" where
  "as_raw p = \<lparr> r_stoic = Some (stoic p), r_role = Some (role p), r_atoms = Some (atoms p) \<rparr>"

definition raw_dict :: "(string \<times> props) list \<Rightarrow> (string \<times> raw_props) list" where
  "raw_dict d = map (\<lambda>(k, p). (k, as_raw p)) d"

text \<open>
  \<open>Species.__init__\<close> for a dictionary argument (the branch for a string argument goes
  through a YAML parser and is not modelled). \<open>if name:\<close> is false for \<open>None\<close> and
  for the empty string; the name is then built from the keys in dictionary order.
\<close>

definition synth_name :: "bool \<Rightarrow> string list \<Rightarrow> string" where
  "synth_name excl ks = (if excl then ''-'' @ join ''-'' ks else join ''+'' ks)"

definition Species_init :: "(string \<times> raw_props) list \<Rightarrow> string option \<Rightarrow> bool \<Rightarrow> species" where
  "Species_init d nm excl =
     \<lparr> name = (case nm of
                 None \<Rightarrow> synth_name excl (map fst d)
               | Some n \<Rightarrow> if n \<noteq> [] then n else synth_name excl (map fst d)),
       exclude = excl,
       spc_dict = map (\<lambda>(k, rp). (k, normalise rp)) d \<rparr>"

definition names :: "species \<Rightarrow> string list" where
  "names s = map fst (spc_dict s)"

section \<open>The merge algorithm \<open>species_sum\<close>\<close>

fun is_Species :: "pyval \<Rightarrow> bool" where
  "is_Species (PySpecies s) = True"
| "is_Species _ = False"

fun the_Species :: "pyval \<Rightarrow> species list" where
  "the_Species (PySpecies s) = [s]"
| "the_Species _ = []"

text \<open>The first loop: the names of the excluding and of the including operands.\<close>

definition collect_names :: "species list \<Rightarrow> string set \<times> string set" where
  "collect_names species_list =
     fold (\<lambda>next_species (include_names, exclude_names).
             if exclude next_species
             then (include_names, exclude_names \<union> set (map fst (spc_dict next_species)))
             else (include_names \<union> set (map fst (spc_dict next_species)), exclude_names))
          species_list ({}, {})"

text \<open>
  The innermost loop: \<open>outatoms[atom] += value\<close>, and \<open>outatoms[atom] = value\<close> when the
  key is missing.
\<close>

definition add_atom :: "string \<times> real \<Rightarrow> atom_dict \<Rightarrow> atom_dict" where
  "add_atom av outatoms =
     (case map_of outatoms (fst av) of
        Some v \<Rightarrow> AList.update (fst av) (v + snd av) outatoms
      | None \<Rightarrow> AList.update (fst av) (snd av) outatoms)"

definition add_atoms :: "atom_dict \<Rightarrow> atom_dict \<Rightarrow> atom_dict" where
  "add_atoms inatoms outatoms = fold add_atom inatoms outatoms"

text \<open>The body of the second loop, for one component of one operand.\<close>

definition accumulate :: "string set \<Rightarrow> string \<times> props \<Rightarrow> (string \<times> props) list \<Rightarrow> (string \<times> props) list" where
  "accumulate out_names item out_props =
     (if fst item \<notin> out_names then out_props
      else
        let outprops = (case map_of out_props (fst item) of
                          Some p \<Rightarrow> p
                        | None \<Rightarrow> \<lparr> stoic = 0, role = {}, atoms = [] \<rparr>)
        in AList.update (fst item)
             \<lparr> stoic = stoic outprops + stoic (snd item),
               role = role outprops \<union> role (snd item),
               atoms = add_atoms (atoms (snd item)) (atoms outprops) \<rparr>
             out_props)"

definition accumulate_all :: "string set \<Rightarrow> species list \<Rightarrow> (string \<times> props) list" where
  "accumulate_all out_names species_list =
     fold (\<lambda>spc out_props. fold (accumulate out_names) (spc_dict spc) out_props) species_list []"

definition empty_sum_msg :: string where
  "empty_sum_msg = ''Sum of species is nothing; check exclusions''"

definition species_sum :: "pyval list \<Rightarrow> error + species" where
  "species_sum species_list =
     (if \<not> list_all is_Species species_list then Inl (TypeError ''Can only add SpeciesGroups'')
      else
        let sl = concat (map the_Species species_list);
            (include_names, exclude_names) = collect_names sl;
            out_include_names = include_names - exclude_names;
            out_exclude_names = exclude_names - include_names
        in if out_include_names \<noteq> {}
           then Inr (Species_init (raw_dict (accumulate_all out_include_names sl)) None False)
           else if out_exclude_names \<noteq> {}
           then Inr (Species_init (raw_dict (accumulate_all out_exclude_names sl)) None False)
           else Inl (ValueError empty_sum_msg))"

section \<open>The operators of \<open>Species\<close>\<close>

text \<open>\<open>__neg__\<close>: the flag passed to the constructor is the constant \<open>True\<close>.\<close>

definition Species_neg :: "species \<Rightarrow> species" where
  "Species_neg self = Species_init (raw_dict (spc_dict self)) (Some (''-('' @ name self @ '')'')) True"

definition Species_add :: "species \<Rightarrow> pyval \<Rightarrow> error + species" where
  "Species_add self other_species = species_sum [PySpecies self, other_species]"

text \<open>
  \<open>__sub__\<close> negates its argument first; for a number that is the number's own negation
  (which wraps for a numpy integer), and a string or \<open>None\<close> has no unary minus.
\<close>

definition np_wrap :: "nat \<Rightarrow> int \<Rightarrow> int" where
  "np_wrap w x = (x + 2 ^ (w - 1)) mod 2 ^ w - 2 ^ (w - 1)"

fun py_neg :: "pyval \<Rightarrow> error + pyval" where
  "py_neg (PySpecies s) = Inr (PySpecies (Species_neg s))"
| "py_neg (PyInt k) = Inr (PyInt (- k))"
| "py_neg (PyFloat k) = Inr (PyFloat (- k))"
| "py_neg (NpInt w v) = Inr (NpInt w (np_wrap w (- v)))"
| "py_neg PyOtherNum = Inr PyOtherNum"
| "py_neg (PyStr s) = Inl (TypeError ''bad operand type for unary -'')"
| "py_neg PyNone = Inl (TypeError ''bad operand type for unary -'')"

definition Species_sub :: "species \<Rightarrow> pyval \<Rightarrow> error + species" where
  "Species_sub self other_species =
     (case py_neg other_species of
        Inl e \<Rightarrow> Inl e
      | Inr n \<Rightarrow> Species_add self n)"






text \<open>
  \<open>__getitem__\<close>. \<open>dict.update\<close> overwrites the keys that exist and appends the others.
\<close>

definition dict_update :: "('k \<times> 'v) list \<Rightarrow> ('k \<times> 'v) list \<Rightarrow> ('k \<times> 'v) list" where
  "dict_update d other = fold (\<lambda>(k, v). AList.update k v) other d"

definition getitem_step :: "(string \<times> props) list \<Rightarrow> string \<times> props \<Rightarrow> (string \<times> props) list \<Rightarrow> (string \<times> props) list" where
  "getitem_step self_dict item out_spc =
     (case map_of self_dict (fst item) of
        None \<Rightarrow> out_spc
      | Some check_props \<Rightarrow>
          if role (snd item) \<subseteq> role check_props
          then AList.update (fst item)
                 \<lparr> stoic = stoic (snd item) * stoic check_props,
                   role = role (snd item),
                   atoms = dict_update (atoms (snd item)) (atoms check_props) \<rparr>
                 out_spc
          else out_spc)"

definition getitem_species :: "species \<Rightarrow> species \<Rightarrow> error + species" where
  "getitem_species self spc_key =
     (let out_spc = fold (getitem_step (spc_dict self)) (spc_dict spc_key) []
      in if length out_spc = 0 then Inl KeyError
         else Inr (Species_init (raw_dict out_spc) None (exclude spc_key)))"

definition Species_getitem :: "species \<Rightarrow> pyval \<Rightarrow> error + species" where
  "Species_getitem self spc_key =
     (case spc_key of
        PyStr k \<Rightarrow>
          getitem_species self
            (Species_init [(k, \<lparr> r_stoic = Some 1, r_role = Some {CHR ''r'', CHR ''p'', CHR ''u''},
                                 r_atoms = Some [] \<rparr>)] (Some k) False)
      | PySpecies p \<Rightarrow> getitem_species self p
      | _ \<Rightarrow> Inl AttributeError)"

section \<open>The species of the test suite\<close>

definition OH :: species where
  "OH = Species_init [(''OH'', \<lparr> r_stoic = Some 1, r_role = None,
                                  r_atoms = Some [(''H'', 1), (''O'', 1)] \<rparr>)] (Some ''OH'') False"

definition HO2 :: species where
  "HO2 = Species_init [(''HO2'', \<lparr> r_stoic = Some 1, r_role = None,
                                    r_atoms = Some [(''H'', 1), (''O'', 2)] \<rparr>)] (Some ''HO2'') False"

definition O3 :: species where
  "O3 = Species_init [(''O3'', \<lparr> r_stoic = Some 1, r_role = None,
                                  r_atoms = Some [(''O'', 3)] \<rparr>)] (Some ''O3'') False"

section \<open>\<open>atom_guess\<close>\<close>

text \<open>
  Names are ASCII strings. \<open>\s\<close> matches the characters for which \<open>str.isspace\<close> holds
  (codes 9 to 13, 28 to 32), \<open>\d\<close> the ten digits.
\<close>

definition is_space :: "char \<Rightarrow> bool" where
  "is_space c = ((of_char c :: nat) \<in> {9, 10, 11, 12, 13, 28, 29, 30, 31, 32})"

definition is_digit :: "char \<Rightarrow> bool" where
  "is_digit c = (c \<in> set ''0123456789'')"

definition int_of_digits :: "string \<Rightarrow> nat" where
  "int_of_digits ds = fold (\<lambda>c n. 10 * n + (of_char c - 48)) ds 0"

text \<open>
  One attempt of the pattern \<open>(A1|A2|...)\s*(\d{1,10})\<close> at the start of \<open>s\<close>: the
  alternatives are tried in order; one matches when it is a prefix of \<open>s\<close> and, after any
  white space, at least one digit follows; at most ten digits are taken. The result is the
  two groups and the text after the match. The symbols are plain letters, so each
  alternative matches itself only.
\<close>

fun match_here :: "string list \<Rightarrow> string \<Rightarrow> (string \<times> string \<times> string) option" where
  "match_here [] s = None"
| "match_here (a # alts) s =
     (let rest = dropWhile is_space (drop (length a) s);
          ds = takeWhile is_digit (take 10 rest)
      in if take (length a) s = a \<and> ds \<noteq> []
         then Some (a, ds, drop (length ds) rest)
         else match_here alts s)"

text \<open>\<open>findall\<close>: after a match the scan goes on behind it, otherwise one character on.\<close>

function atre_findall :: "string list \<Rightarrow> string \<Rightarrow> (string \<times> string) list" where
  "atre_findall alts s =
     (case match_here alts s of
        Some (a, ds, rest) \<Rightarrow> (a, ds) # atre_findall alts rest
      | None \<Rightarrow> (case s of [] \<Rightarrow> [] | c # cs \<Rightarrow> atre_findall alts cs))"
  by pat_completeness auto
termination
proof (relation "measure (\<lambda>(alts, s). length s)")
  show "wf (measure (\<lambda>(alts :: string list, s :: string). length s))"
    by simp
next
  fix alts :: "string list" and s :: string and x2 a y ds rest
  assume m: "match_here alts s = Some x2" and x2: "(a, y) = x2" and y: "(ds, rest) = y"
  have "length r < length t" if "match_here as t = Some (b, d, r)" for as t b d r
    using that
  proof (induction as)
    case Nil
    then show ?case by simp
  next
    case (Cons a0 as)
    define rest where "rest = dropWhile is_space (drop (length a0) t)"
    define ds where "ds = takeWhile is_digit (take 10 rest)"
    have unfold: "match_here (a0 # as) t =
        (if take (length a0) t = a0 \<and> ds \<noteq> []
         then Some (a0, ds, drop (length ds) rest) else match_here as t)"
      by (simp add: rest_def ds_def Let_def)
    show ?case
    proof (cases "take (length a0) t = a0 \<and> ds \<noteq> []")
      case True
      with Cons.prems unfold have r: "r = drop (length ds) rest"
        by simp
      from True have "0 < length rest"
        by (auto simp: ds_def)
      moreover have "length rest \<le> length t"
        unfolding rest_def by (rule order_trans [OF length_dropWhile_le]) simp
      moreover from True have "0 < length ds"
        by simp
      moreover have "length r = length rest - length ds"
        unfolding r by simp
      ultimately show ?thesis
        by arith
    next
      case False
      with Cons.prems unfold have "match_here as t = Some (b, d, r)"
        by simp
      then show ?thesis by (rule Cons.IH)
    qed
  qed
  moreover from m x2 y have "match_here alts s = Some (a, ds, rest)"
    by simp
  ultimately show "((alts, rest), (alts, s)) \<in> measure (\<lambda>(alts, s). length s)"
    by simp
next
  fix alts :: "string list" and s :: string and c cs
  assume "s = c # cs"
  then show "((alts, cs), (alts, s)) \<in> measure (\<lambda>(alts, s). length s)"
    by simp
qed

text \<open>
  \<open>atom_guess\<close>. \<open>ALL_ATOMS\<close> is the table loaded from \<open>atoms.yaml\<close>, here the list of its
  keys, a parameter; \<open>atom_parse\<close>, used for formulas with a \<open>+\<close> or a leading digit, is a
  parameter too. \<open>sorted(..., key = -len)\<close> is a stable sort, as \<open>sort_key\<close> is.
\<close>

definition guess_step :: "string \<times> string \<Rightarrow> atom_dict \<Rightarrow> atom_dict" where
  "guess_step m atom_dict =
     (let mul = (if snd m = [] then ''1'' else snd m);
          atom_dict' = (case map_of atom_dict (fst m) of
                          None \<Rightarrow> AList.update (fst m) 0 atom_dict
                        | Some v \<Rightarrow> atom_dict)
      in case map_of atom_dict' (fst m) of
           None \<Rightarrow> atom_dict'
         | Some v \<Rightarrow> AList.update (fst m) (v + real (int_of_digits mul)) atom_dict')"

definition atom_guess :: "(string \<Rightarrow> atom_dict) \<Rightarrow> string list \<Rightarrow> string \<Rightarrow> atom_dict" where
  "atom_guess atom_parse ALL_ATOMS spc_name =
     (if CHR ''+'' \<in> set spc_name \<or> (case spc_name of [] \<Rightarrow> False | c # cs \<Rightarrow> is_digit c)
      then atom_parse spc_name
      else fold guess_step
             (atre_findall (sort_key (\<lambda>x. - int (length x)) ALL_ATOMS) spc_name) [])"

section \<open>\<open>Mechanism.find_rxns\<close> and \<open>Mechanism.make_net_rxn\<close>\<close>

text \<open>
  A filter argument is one species or name, or a list of them. The classes \<open>AttrDict\<close>
  and \<open>Reaction\<close> are not part of the sources: the item lookup of \<open>species_dict\<close>
  (\<open>getitem\<close>) and the predicates \<open>has_rct\<close> and \<open>has_prd\<close> of a reaction are parameters,
  and so is \<open>eval\<close> in the environment of the mechanism (\<open>py_eval\<close>). \<open>reaction_dict\<close> is
  the dictionary of the reactions by name.
\<close>

datatype spc_ref = Name string | Spc species

datatype query_arg = One spc_ref | Many "spc_ref list"

fun as_list :: "query_arg \<Rightarrow> spc_ref list" where
  "as_list (One x) = [x]"
| "as_list (Many xs) = xs"

fun ensure_species :: "(string \<Rightarrow> error + species) \<Rightarrow> spc_ref \<Rightarrow> error + species" where
  "ensure_species getitem (Name n) = getitem n"
| "ensure_species getitem (Spc s) = Inr s"

fun ensure_all :: "(string \<Rightarrow> error + species) \<Rightarrow> spc_ref list \<Rightarrow> error + species list" where
  "ensure_all getitem [] = Inr []"
| "ensure_all getitem (x # xs) =
     (case ensure_species getitem x of
        Inl e \<Rightarrow> Inl e
      | Inr s \<Rightarrow> (case ensure_all getitem xs of Inl e \<Rightarrow> Inl e | Inr ss \<Rightarrow> Inr (s # ss)))"

text \<open>
  The body of \<open>find_rxns\<close> once both filters are lists of species. \<open>list(set(...))\<close>
  followed by \<open>sort()\<close> is the sorted list of the distinct elements.
\<close>

definition select_rxns ::
  "('r \<Rightarrow> species \<Rightarrow> bool) \<Rightarrow> ('r \<Rightarrow> species \<Rightarrow> bool) \<Rightarrow> (string \<times> 'r) list \<Rightarrow>
   species list \<Rightarrow> species list \<Rightarrow> bool \<Rightarrow> string list" where
  "select_rxns has_rct has_prd reaction_dict reactants products logical_and =
     (let result = reaction_dict;
          reactant_result =
            (if reactants \<noteq> []
             then map fst (filter (\<lambda>(rxn_name, rxn). list_all (has_rct rxn) reactants) result)
             else map fst result);
          product_result =
            (if products \<noteq> []
             then map fst (filter (\<lambda>(rxn_name, rxn). list_all (has_prd rxn) products) result)
             else map fst result)
      in if logical_and
         then sort (remdups (filter (\<lambda>n. n \<in> set product_result) reactant_result))
         else sort (remdups (reactant_result @ product_result)))"

definition find_rxns ::
  "(string \<Rightarrow> error + species) \<Rightarrow> ('r \<Rightarrow> species \<Rightarrow> bool) \<Rightarrow> ('r \<Rightarrow> species \<Rightarrow> bool) \<Rightarrow>
   (string \<times> 'r) list \<Rightarrow> query_arg \<Rightarrow> query_arg \<Rightarrow> bool \<Rightarrow> error + string list" where
  "find_rxns getitem has_rct has_prd reaction_dict reactants products logical_and =
     (case ensure_all getitem (as_list reactants) of
        Inl e \<Rightarrow> Inl e
      | Inr rs \<Rightarrow>
          (case ensure_all getitem (as_list products) of
             Inl e \<Rightarrow> Inl e
           | Inr ps \<Rightarrow> Inr (select_rxns has_rct has_prd reaction_dict rs ps logical_and)))"

definition make_net_rxn ::
  "(string \<Rightarrow> error + 'r) \<Rightarrow> (string \<Rightarrow> error + species) \<Rightarrow> ('r \<Rightarrow> species \<Rightarrow> bool) \<Rightarrow>
   ('r \<Rightarrow> species \<Rightarrow> bool) \<Rightarrow> (string \<times> 'r) list \<Rightarrow> query_arg \<Rightarrow> query_arg \<Rightarrow> bool \<Rightarrow> error + 'r" where
  "make_net_rxn py_eval getitem has_rct has_prd reaction_dict reactants products logical_and =
     (case find_rxns getitem has_rct has_prd reaction_dict reactants products logical_and of
        Inl e \<Rightarrow> Inl e
      | Inr rxns \<Rightarrow> py_eval (join '' + '' rxns))"

section \<open>Notions used to state the properties\<close>

text \<open>
  The include set and the exclude set of a list of operands, and the two net sets.
\<close>

definition include_set :: "species list \<Rightarrow> string set" where
  "include_set ss = set (concat (map names (filter (\<lambda>s. \<not> exclude s) ss)))"

definition exclude_set :: "species list \<Rightarrow> string set" where
  "exclude_set ss = set (concat (map names (filter exclude ss)))"

definition net_include :: "species list \<Rightarrow> string set" where
  "net_include ss = include_set ss - exclude_set ss"

definition net_exclude :: "species list \<Rightarrow> string set" where
  "net_exclude ss = exclude_set ss - include_set ss"

text \<open>
  The records that the operands containing the component \<open>n\<close> hold for it, in the order of
  the operands, and the counts that a list of records holds for the atom \<open>a\<close>.
\<close>

definition operand_props :: "species list \<Rightarrow> string \<Rightarrow> props list" where
  "operand_props ss n = List.map_filter (\<lambda>s. map_of (spc_dict s) n) ss"

definition atom_counts :: "props list \<Rightarrow> string \<Rightarrow> real list" where
  "atom_counts ps a = List.map_filter (\<lambda>p. map_of (atoms p) a) ps"

text \<open>All values stored under a key in an association list, and one step of the merge.\<close>

definition entries :: "'k \<Rightarrow> ('k \<times> 'v) list \<Rightarrow> 'v list" where
  "entries k d = map snd (filter (\<lambda>i. fst i = k) d)"

definition zero_props :: props where
  "zero_props = \<lparr> stoic = 0, role = {}, atoms = [] \<rparr>"

definition merge_props :: "props \<Rightarrow> props \<Rightarrow> props" where
  "merge_props inprops outprops =
     \<lparr> stoic = stoic outprops + stoic inprops,
       role = role outprops \<union> role inprops,
       atoms = add_atoms (atoms inprops) (atoms outprops) \<rparr>"

text \<open>The reaction names of a registry whose reaction satisfies a predicate for every species of a list.\<close>

definition matching :: "('r \<Rightarrow> species \<Rightarrow> bool) \<Rightarrow> (string \<times> 'r) list \<Rightarrow> species list \<Rightarrow> string set" where
  "matching has reaction_dict ss =
     set (map fst (filter (\<lambda>(rxn_name, rxn). list_all (has rxn) ss) reaction_dict))"

text \<open>
  What a filter argument denotes: a name denotes the species the registry holds for it, a
  species denotes itself; one name or species denotes the list of its one species, a list
  denotes the list of the species of its elements.
\<close>

definition resolves :: "(string \<Rightarrow> error + species) \<Rightarrow> spc_ref \<Rightarrow> species \<Rightarrow> bool" where
  "resolves getitem x s = (case x of Name n \<Rightarrow> getitem n = Inr s | Spc s' \<Rightarrow> s = s')"

definition denotes :: "(string \<Rightarrow> error + species) \<Rightarrow> query_arg \<Rightarrow> species list \<Rightarrow> bool" where
  "denotes getitem q ss =
     (case q of
        One x \<Rightarrow> (case ss of [s] \<Rightarrow> resolves getitem x s | _ \<Rightarrow> False)
      | Many xs \<Rightarrow> list_all2 (resolves getitem) xs ss)"

text \<open>The aggregate \<open>HOx\<close> of the test suite.\<close>

definition HOx :: species where
  "HOx = Species_init
           [(''OH'', \<lparr> r_stoic = Some 1, r_role = None, r_atoms = Some [(''H'', 1), (''O'', 1)] \<rparr>),
            (''HO2'', \<lparr> r_stoic = Some 1, r_role = None, r_atoms = Some [(''H'', 1), (''O'', 2)] \<rparr>)]
           (Some ''HOx'') False"

section \<open>Properties of the constructor\<close>

lemma normalise_as_raw: "normalise (as_raw p) = p"
  by (simp add: normalise_def as_raw_def)

lemma spc_dict_init: "spc_dict (Species_init (raw_dict d) nm e) = d"
  by (induction d) (auto simp: Species_init_def raw_dict_def normalise_as_raw)

lemma exclude_init: "exclude (Species_init d nm e) = e"
  by (simp add: Species_init_def)

lemma name_init_Some: "n \<noteq> [] \<Longrightarrow> name (Species_init d (Some n) e) = n"
  by (simp add: Species_init_def)

lemma name_init_None: "name (Species_init (raw_dict d) None e) = synth_name e (map fst d)"
  by (simp add: Species_init_def raw_dict_def comp_def case_prod_unfold)

lemmas test_species_defs = OH_def HO2_def O3_def HOx_def Species_init_def normalise_def

section \<open>Properties of \<open>species_sum\<close>\<close>

lemmas sum_eval_defs = species_sum_def collect_names_def accumulate_all_def accumulate_def
  add_atoms_def add_atom_def raw_dict_def as_raw_def synth_name_def Species_neg_def
  Species_add_def Species_sub_def

lemmas set_defs = net_include_def net_exclude_def include_set_def exclude_set_def names_def

lemma collect_names_fold:
  "fold (\<lambda>next_species (include_names, exclude_names).
             if exclude next_species
             then (include_names, exclude_names \<union> set (map fst (spc_dict next_species)))
             else (include_names \<union> set (map fst (spc_dict next_species)), exclude_names))
        ss (I, E) = (I \<union> include_set ss, E \<union> exclude_set ss)"
  by (induction ss arbitrary: I E) (auto simp: include_set_def exclude_set_def names_def)

lemma collect_names_eq: "collect_names ss = (include_set ss, exclude_set ss)"
  unfolding collect_names_def by (simp add: collect_names_fold)

lemma the_Species_map: "concat (map the_Species (map PySpecies ss)) = ss"
  by (induction ss) simp_all

lemma all_Species_map: "list_all is_Species (map PySpecies ss)"
  by (induction ss) simp_all

lemma species_sum_Species:
  "species_sum (map PySpecies ss) =
     (if net_include ss \<noteq> {}
      then Inr (Species_init (raw_dict (accumulate_all (net_include ss) ss)) None False)
      else if net_exclude ss \<noteq> {}
      then Inr (Species_init (raw_dict (accumulate_all (net_exclude ss) ss)) None False)
      else Inl (ValueError empty_sum_msg))"
  by (simp add: species_sum_def all_Species_map the_Species_map collect_names_eq
        net_include_def net_exclude_def del: map_map)

lemma fold_fold_concat: "fold (\<lambda>x. fold f (g x)) xs a = fold f (concat (map g xs)) a"
  by (induction xs arbitrary: a) simp_all

lemma accumulate_all_items:
  "accumulate_all N ss = fold (accumulate N) (concat (map spc_dict ss)) []"
  by (simp add: accumulate_all_def fold_fold_concat)

lemma accumulate_merge:
  "accumulate N i out =
     (if fst i \<notin> N then out
      else AList.update (fst i)
             (merge_props (snd i) (case map_of out (fst i) of Some p \<Rightarrow> p | None \<Rightarrow> zero_props)) out)"
  unfolding accumulate_def merge_props_def zero_props_def Let_def by simp

lemma keys_accumulate:
  "fst ` set (accumulate N i out) = fst ` set out \<union> (if fst i \<in> N then {fst i} else {})"
  by (simp add: accumulate_merge dom_update)

lemma keys_fold_accumulate:
  "fst ` set (fold (accumulate N) items out) = fst ` set out \<union> (fst ` set items \<inter> N)"
  by (induction items arbitrary: out) (auto simp: keys_accumulate)

lemma include_set_keys: "include_set ss \<subseteq> fst ` set (concat (map spc_dict ss))"
  by (auto simp: include_set_def names_def)

lemma exclude_set_keys: "exclude_set ss \<subseteq> fst ` set (concat (map spc_dict ss))"
  by (auto simp: exclude_set_def names_def)

lemma keys_accumulate_all:
  "N \<subseteq> fst ` set (concat (map spc_dict ss)) \<Longrightarrow> fst ` set (accumulate_all N ss) = N"
  by (auto simp: accumulate_all_items keys_fold_accumulate)

lemma names_sum_result:
  "N \<subseteq> fst ` set (concat (map spc_dict ss)) \<Longrightarrow>
   set (names (Species_init (raw_dict (accumulate_all N ss)) None e)) = N"
  by (simp add: names_def spc_dict_init keys_accumulate_all)

text \<open>
  Claim C1: the first loop of \<open>species_sum\<close> computes the include set and the exclude
  set of the operands; when one of the two net sets is not empty, \<open>species_sum\<close> returns a
  species with \<open>exclude = False\<close> whose component names are the net include set if that
  is not empty, and the net exclude set otherwise.
\<close>

theorem species_sum_membership:
  assumes "net_include ss \<noteq> {} \<or> net_exclude ss \<noteq> {}"
  shows "collect_names ss = (include_set ss, exclude_set ss) \<and>
         (\<exists>r. species_sum (map PySpecies ss) = Inr r \<and> exclude r = False \<and>
              set (names r) = (if net_include ss \<noteq> {} then net_include ss else net_exclude ss))"
proof -
  have inc: "net_include ss \<subseteq> fst ` set (concat (map spc_dict ss))"
    using include_set_keys [of ss] by (auto simp: net_include_def)
  have exc: "net_exclude ss \<subseteq> fst ` set (concat (map spc_dict ss))"
    using exclude_set_keys [of ss] by (auto simp: net_exclude_def)
  show ?thesis
  proof (cases "net_include ss \<noteq> {}")
    case True
    then show ?thesis
      by (simp add: species_sum_Species collect_names_eq exclude_init names_sum_result [OF inc])
  next
    case False
    with assms have "net_exclude ss \<noteq> {}" by simp
    with False show ?thesis
      by (simp add: species_sum_Species collect_names_eq exclude_init names_sum_result [OF exc])
  qed
qed

text \<open>
  Claim C1 at \<open>OH + HO2\<close> (net include set \<open>{OH, HO2}\<close>) and at the sum of \<open>-OH\<close> alone
  (net exclude set \<open>{OH}\<close>, returned as a non-excluding species).
\<close>

theorem species_sum_membership_witness:
  "net_include [OH, HO2] = {''OH'', ''HO2''} \<and>
   (\<exists>r. species_sum (map PySpecies [OH, HO2]) = Inr r \<and> exclude r = False \<and>
        set (names r) = {''OH'', ''HO2''}) \<and>
   net_include [Species_neg OH] = {} \<and> net_exclude [Species_neg OH] = {''OH''} \<and>
   (\<exists>r. species_sum (map PySpecies [Species_neg OH]) = Inr r \<and> exclude r = False \<and>
        set (names r) = {''OH''})"
proof -
  have a: "net_include [OH, HO2] = {''OH'', ''HO2''}"
    by (simp add: set_defs test_species_defs)
  then have "net_include [OH, HO2] \<noteq> {} \<or> net_exclude [OH, HO2] \<noteq> {}"
    by simp
  from species_sum_membership [OF this] a
  have 1: "\<exists>r. species_sum (map PySpecies [OH, HO2]) = Inr r \<and> exclude r = False \<and>
        set (names r) = {''OH'', ''HO2''}"
    by simp
  have b: "net_include [Species_neg OH] = {}" and c: "net_exclude [Species_neg OH] = {''OH''}"
    by (simp_all add: set_defs Species_neg_def test_species_defs raw_dict_def as_raw_def)
  then have "net_include [Species_neg OH] \<noteq> {} \<or> net_exclude [Species_neg OH] \<noteq> {}"
    by simp
  from species_sum_membership [OF this] b c
  have 2: "\<exists>r. species_sum (map PySpecies [Species_neg OH]) = Inr r \<and> exclude r = False \<and>
        set (names r) = {''OH''}"
    by simp
  from a b c 1 2 show ?thesis by blast
qed

text \<open>
  Claim C4: \<open>species_sum\<close> raises the empty-sum \<open>ValueError\<close> exactly when both net sets
  are empty, that is when the include set and the exclude set are equal, and then it
  returns no species. For \<open>a + (-a)\<close> that is the case exactly when \<open>a\<close> does not exclude
  or has no component (the negation of an excluding species excludes again).
\<close>

theorem species_sum_empty_iff:
  "(species_sum (map PySpecies ss) = Inl (ValueError empty_sum_msg))
     = (net_include ss = {} \<and> net_exclude ss = {})
   \<and> (net_include ss = {} \<and> net_exclude ss = {}) = (include_set ss = exclude_set ss)
   \<and> (include_set ss = exclude_set ss \<longrightarrow> (\<forall>r. species_sum (map PySpecies ss) \<noteq> Inr r))
   \<and> (Species_add a (PySpecies (Species_neg a)) = Inl (ValueError empty_sum_msg))
       = (\<not> exclude a \<or> spc_dict a = [])"
proof -
  have 1: "(species_sum (map PySpecies ss) = Inl (ValueError empty_sum_msg))
     = (net_include ss = {} \<and> net_exclude ss = {})"
    by (simp add: species_sum_Species)
  have 2: "(net_include ss = {} \<and> net_exclude ss = {}) = (include_set ss = exclude_set ss)"
    by (auto simp: net_include_def net_exclude_def)
  have 3: "include_set ss = exclude_set ss \<longrightarrow> (\<forall>r. species_sum (map PySpecies ss) \<noteq> Inr r)"
    using 1 2 by auto
  have "Species_add a (PySpecies (Species_neg a)) = species_sum (map PySpecies [a, Species_neg a])"
    by (simp add: Species_add_def)
  moreover have "net_include [a, Species_neg a] = {}"
    by (simp add: net_include_def include_set_def exclude_set_def names_def Species_neg_def
          spc_dict_init exclude_init)
  moreover have "(net_exclude [a, Species_neg a] = {}) = (\<not> exclude a \<or> spc_dict a = [])"
    by (auto simp: net_exclude_def include_set_def exclude_set_def names_def Species_neg_def
          spc_dict_init exclude_init)
  ultimately have 4: "(Species_add a (PySpecies (Species_neg a)) = Inl (ValueError empty_sum_msg))
       = (\<not> exclude a \<or> spc_dict a = [])"
    by (simp only: species_sum_Species) simp
  from 1 2 3 4 show ?thesis by blast
qed


text \<open>Claim C4 at \<open>OH + (-OH)\<close>.\<close>

theorem species_sum_empty_iff_witness:
  "species_sum (map PySpecies [OH, Species_neg OH]) = Inl (ValueError empty_sum_msg) \<and>
   include_set [OH, Species_neg OH] = exclude_set [OH, Species_neg OH] \<and>
   Species_add OH (PySpecies (Species_neg OH)) = Inl (ValueError empty_sum_msg)"
proof -
  have e: "include_set [OH, Species_neg OH] = exclude_set [OH, Species_neg OH]"
    by (simp add: set_defs Species_neg_def test_species_defs raw_dict_def as_raw_def)
  have x: "\<not> exclude OH"
    by (simp add: test_species_defs)
  from species_sum_empty_iff [of "[OH, Species_neg OH]" OH] e x show ?thesis
    by simp
qed

lemma entries_Nil [simp]: "entries k [] = []"
  by (simp add: entries_def)

lemma entries_Cons [simp]: "entries k (i # d) = (if fst i = k then snd i # entries k d else entries k d)"
  by (simp add: entries_def)

lemma entries_append [simp]: "entries k (d @ d') = entries k d @ entries k d'"
  by (simp add: entries_def)

lemma entries_empty_iff: "entries k d = [] \<longleftrightarrow> k \<notin> fst ` set d"
  by (induction d) auto

lemma map_of_fold_accumulate:
  assumes "n \<in> N"
  shows "map_of (fold (accumulate N) items out) n =
     (if entries n items = [] then map_of out n
      else Some (fold merge_props (entries n items)
                   (case map_of out n of Some p \<Rightarrow> p | None \<Rightarrow> zero_props)))"
  using assms
proof (induction items arbitrary: out)
  case Nil
  then show ?case by simp
next
  case (Cons i items)
  show ?case
  proof (cases "fst i = n")
    case True
    with Cons.prems have "map_of (accumulate N i out) n =
        Some (merge_props (snd i) (case map_of out n of Some p \<Rightarrow> p | None \<Rightarrow> zero_props))"
      by (simp add: accumulate_merge update_conv')
    with True Cons.IH [OF Cons.prems, of "accumulate N i out"] show ?thesis
      by simp
  next
    case False
    then have "map_of (accumulate N i out) n = map_of out n"
      by (simp add: accumulate_merge update_conv')
    with False Cons.IH [OF Cons.prems, of "accumulate N i out"] show ?thesis
      by simp
  qed
qed

lemma stoic_fold_merge: "stoic (fold merge_props ps p0) = stoic p0 + sum_list (map stoic ps)"
  by (induction ps arbitrary: p0) (simp_all add: merge_props_def)

lemma role_fold_merge: "role (fold merge_props ps p0) = role p0 \<union> \<Union> (set (map role ps))"
  by (induction ps arbitrary: p0) (auto simp: merge_props_def)

lemma atoms_fold_merge:
  "atoms (fold merge_props ps p0) = fold add_atom (concat (map atoms ps)) (atoms p0)"
  by (induction ps arbitrary: p0) (simp_all add: merge_props_def add_atoms_def)

lemma map_of_add_atom:
  "map_of (add_atom av out) a =
     (if fst av = a then Some ((case map_of out a of None \<Rightarrow> 0 | Some v \<Rightarrow> v) + snd av)
      else map_of out a)"
  by (auto simp: add_atom_def update_conv' split: option.splits)

lemma map_of_fold_add_atom:
  "map_of (fold add_atom avs out) a =
     (if entries a avs = [] then map_of out a
      else Some ((case map_of out a of None \<Rightarrow> 0 | Some v \<Rightarrow> v) + sum_list (entries a avs)))"
proof (induction avs arbitrary: out)
  case Nil
  then show ?case by simp
next
  case (Cons av avs)
  show ?case
    using Cons.IH [of "add_atom av out"]
    by (simp add: map_of_add_atom add.assoc)
qed

lemma entries_distinct:
  "distinct (map fst d) \<Longrightarrow> entries k d = (case map_of d k of None \<Rightarrow> [] | Some v \<Rightarrow> [v])"
proof (induction d)
  case Nil
  then show ?case by simp
next
  case (Cons i d)
  then show ?case
    by (cases i) (auto simp: entries_empty_iff map_of_eq_None_iff [symmetric] split: option.splits)
qed

lemma entries_concat_distinct:
  "\<forall>x \<in> set xs. distinct (map fst (g x)) \<Longrightarrow>
   entries k (concat (map g xs)) = List.map_filter (\<lambda>x. map_of (g x) k) xs"
  by (induction xs) (auto simp: entries_distinct split: option.splits)


lemma wf_species_distinct: "list_all wf_species ss \<Longrightarrow> \<forall>s \<in> set ss. distinct (map fst (spc_dict s))"
  by (auto simp: list_all_iff wf_species_def)

lemma operand_props_entries:
  "list_all wf_species ss \<Longrightarrow> entries n (concat (map spc_dict ss)) = operand_props ss n"
  unfolding operand_props_def
  by (rule entries_concat_distinct) (rule wf_species_distinct)

lemma atom_counts_entries:
  "\<forall>p \<in> set ps. wf_props p \<Longrightarrow> entries a (concat (map atoms ps)) = atom_counts ps a"
  unfolding atom_counts_def
  by (rule entries_concat_distinct) (simp add: wf_props_def)

lemma wf_operand_props:
  assumes "list_all wf_species ss"
  shows "\<forall>p \<in> set (operand_props ss n). wf_props p"
proof
  fix p
  assume "p \<in> set (operand_props ss n)"
  then obtain s where s: "s \<in> set ss" "map_of (spc_dict s) n = Some p"
    by (auto simp: operand_props_def List.map_filter_def)
  then have "(n, p) \<in> set (spc_dict s)"
    by (auto dest: map_of_SomeD)
  moreover from assms s(1) have "list_all (\<lambda>(n, p). wf_props p) (spc_dict s)"
    by (simp add: list_all_iff wf_species_def)
  ultimately show "wf_props p"
    by (auto simp: list_all_iff)
qed

lemma accumulate_all_lookup:
  assumes "list_all wf_species ss" and "N \<subseteq> fst ` set (concat (map spc_dict ss))" and "n \<in> N"
  shows "map_of (accumulate_all N ss) n = Some (fold merge_props (operand_props ss n) zero_props)"
proof -
  from assms(2,3) have "entries n (concat (map spc_dict ss)) \<noteq> []"
    by (auto simp: entries_empty_iff)
  with assms(3) show ?thesis
    by (simp add: accumulate_all_items map_of_fold_accumulate operand_props_entries [OF assms(1)])
qed

lemma merged_props:
  assumes "\<forall>p \<in> set ps. wf_props p"
  shows "stoic (fold merge_props ps zero_props) = sum_list (map stoic ps)"
    and "role (fold merge_props ps zero_props) = \<Union> (set (map role ps))"
    and "map_of (atoms (fold merge_props ps zero_props)) a =
           (if atom_counts ps a = [] then None else Some (sum_list (atom_counts ps a)))"
  by (simp_all add: stoic_fold_merge role_fold_merge atoms_fold_merge map_of_fold_add_atom
        atom_counts_entries [OF assms] zero_props_def)

text \<open>
  Claim C2: when \<open>species_sum\<close> returns a species \<open>r\<close> for operands with unique keys, the
  record of \<open>r\<close> for each of its component names \<open>n\<close> has as stoic the sum of the stoics,
  as role the union of the roles and as atoms the sum per atom symbol of the counts that
  the operands containing \<open>n\<close> hold for it, whatever their flags.
\<close>

theorem species_sum_accumulates:
  assumes wf: "list_all wf_species ss"
    and res: "species_sum (map PySpecies ss) = Inr r"
    and n: "n \<in> set (names r)"
  shows "\<exists>p. map_of (spc_dict r) n = Some p
      \<and> stoic p = sum_list (map stoic (operand_props ss n))
      \<and> role p = \<Union> (set (map role (operand_props ss n)))
      \<and> (\<forall>a. map_of (atoms p) a =
               (if atom_counts (operand_props ss n) a = [] then None
                else Some (sum_list (atom_counts (operand_props ss n) a))))"
proof -
  have inc: "net_include ss \<subseteq> fst ` set (concat (map spc_dict ss))"
    using include_set_keys [of ss] by (auto simp: net_include_def)
  have exc: "net_exclude ss \<subseteq> fst ` set (concat (map spc_dict ss))"
    using exclude_set_keys [of ss] by (auto simp: net_exclude_def)
  from res obtain N where N: "N \<subseteq> fst ` set (concat (map spc_dict ss))"
    and r: "r = Species_init (raw_dict (accumulate_all N ss)) None False"
    using inc exc by (auto simp: species_sum_Species split: if_splits)
  from n have "n \<in> N"
    unfolding r by (simp add: names_sum_result [OF N])
  with wf N have "map_of (spc_dict r) n = Some (fold merge_props (operand_props ss n) zero_props)"
    unfolding r by (simp add: spc_dict_init accumulate_all_lookup)
  with merged_props [OF wf_operand_props [OF wf], of n] show ?thesis
    by simp
qed

text \<open>Claim C2 at \<open>HOx + OH\<close> and the component \<open>OH\<close>, which both operands contain.\<close>

theorem species_sum_accumulates_witness:
  "(\<exists>r p. species_sum (map PySpecies [HOx, OH]) = Inr r \<and> list_all wf_species [HOx, OH] \<and>
      ''OH'' \<in> set (names r) \<and> map_of (spc_dict r) ''OH'' = Some p \<and>
      stoic p = 2 \<and> role p = {CHR ''r'', CHR ''u'', CHR ''p''} \<and>
      map_of (atoms p) ''H'' = Some 2 \<and> map_of (atoms p) ''O'' = Some 2 \<and>
      map_of (atoms p) ''C'' = None)"
proof -
  define r where "r = \<lparr> name = ''OH+HO2'', exclude = False,
     spc_dict = [(''OH'', \<lparr> stoic = 2, role = {CHR ''r'', CHR ''u'', CHR ''p''},
                             atoms = [(''H'', 2), (''O'', 2)] \<rparr>),
                 (''HO2'', \<lparr> stoic = 1, role = {CHR ''r'', CHR ''u'', CHR ''p''},
                             atoms = [(''H'', 1), (''O'', 2)] \<rparr>)] \<rparr>"
  have res: "species_sum (map PySpecies [HOx, OH]) = Inr r"
    by (simp add: r_def sum_eval_defs test_species_defs insert_commute)
  have wf: "list_all wf_species [HOx, OH]"
    by (simp add: wf_species_def wf_props_def test_species_defs)
  have n: "''OH'' \<in> set (names r)"
    by (simp add: r_def names_def)
  have ops: "operand_props [HOx, OH] ''OH'' =
      [\<lparr> stoic = 1, role = {CHR ''r'', CHR ''u'', CHR ''p''}, atoms = [(''H'', 1), (''O'', 1)] \<rparr>,
       \<lparr> stoic = 1, role = {CHR ''r'', CHR ''u'', CHR ''p''}, atoms = [(''H'', 1), (''O'', 1)] \<rparr>]"
    by (simp add: operand_props_def test_species_defs)
  from species_sum_accumulates [OF wf res n] obtain p where
    p: "map_of (spc_dict r) ''OH'' = Some p"
      "stoic p = sum_list (map stoic (operand_props [HOx, OH] ''OH''))"
      "role p = \<Union> (set (map role (operand_props [HOx, OH] ''OH'')))"
      "\<forall>a. map_of (atoms p) a =
               (if atom_counts (operand_props [HOx, OH] ''OH'') a = [] then None
                else Some (sum_list (atom_counts (operand_props [HOx, OH] ''OH'') a)))"
    by blast
  from p(2) have 1: "stoic p = 2"
    by (simp add: ops)
  from p(3) have 2: "role p = {CHR ''r'', CHR ''u'', CHR ''p''}"
    by (simp add: ops)
  from p(4) have 3: "map_of (atoms p) ''H'' = Some 2" "map_of (atoms p) ''O'' = Some 2"
    "map_of (atoms p) ''C'' = None"
    by (simp_all add: ops atom_counts_def)
  from res wf n p(1) 1 2 3 show ?thesis
    by blast
qed

lemma update_fresh: "k \<notin> fst ` set al \<Longrightarrow> AList.update k v al = al @ [(k, v)]"
  by (induction al) auto

lemma fold_add_atom_fresh:
  "distinct (map fst xs) \<Longrightarrow> fst ` set xs \<inter> fst ` set out = {} \<Longrightarrow> fold add_atom xs out = out @ xs"
proof (induction xs arbitrary: out)
  case Nil
  then show ?case by simp
next
  case (Cons x xs)
  from Cons.prems have fresh: "fst x \<notin> fst ` set out"
    by auto
  then have "map_of out (fst x) = None"
    by (simp add: map_of_eq_None_iff)
  with fresh have step: "add_atom x out = out @ [x]"
    by (simp add: add_atom_def update_fresh)
  from Cons.prems have "fst ` set xs \<inter> fst ` set (out @ [x]) = {}"
    by auto
  with Cons.IH [of "out @ [x]"] Cons.prems step show ?case
    by simp
qed

lemma merge_zero: "wf_props p \<Longrightarrow> merge_props p zero_props = p"
  by (simp add: merge_props_def zero_props_def add_atoms_def wf_props_def fold_add_atom_fresh)

lemma fold_accumulate_fresh:
  "distinct (map fst items) \<Longrightarrow> fst ` set items \<inter> fst ` set out = {} \<Longrightarrow>
   \<forall>i \<in> set items. wf_props (snd i) \<Longrightarrow>
   fold (accumulate N) items out = out @ filter (\<lambda>i. fst i \<in> N) items"
proof (induction items arbitrary: out)
  case Nil
  then show ?case by simp
next
  case (Cons i items)
  from Cons.prems have fresh: "fst i \<notin> fst ` set out"
    by auto
  then have none: "map_of out (fst i) = None"
    by (simp add: map_of_eq_None_iff)
  from Cons.prems have wfi: "wf_props (snd i)"
    by simp
  have step: "accumulate N i out = (if fst i \<in> N then out @ [i] else out)"
    using fresh none wfi by (simp add: accumulate_merge merge_zero update_fresh)
  from Cons.prems have "fst ` set items \<inter> fst ` set (accumulate N i out) = {}"
    unfolding step by auto
  with Cons.IH [of "accumulate N i out"] Cons.prems show ?case
    by (simp add: step)
qed

lemma fold_accumulate_none:
  "\<forall>i \<in> set items. fst i \<notin> N \<Longrightarrow> fold (accumulate N) items out = out"
  by (induction items arbitrary: out) (simp_all add: accumulate_merge)


text \<open>
  Claim C3, at a concrete input: \<open>OH\<close> is a component subset of itself, and \<open>OH - OH\<close>
  raises the empty-sum error instead of returning a species without components.
\<close>

theorem Species_sub_equal_names_counterexample:
  "\<not> exclude OH \<and> set (names OH) \<subseteq> set (names OH) \<and>
   Species_sub OH (PySpecies OH) = Inl (ValueError empty_sum_msg)"
  by (simp add: sum_eval_defs test_species_defs)

lemma map_of_filter_key: "P k \<Longrightarrow> map_of (filter (\<lambda>i. P (fst i)) d) k = map_of d k"
  by (induction d) auto

lemma Species_sub_Species:
  "Species_sub b (PySpecies a) = species_sum (map PySpecies [b, Species_neg a])"
  by (simp add: Species_sub_def Species_add_def)

text \<open>
  Claim C3, amended: for non-excluding \<open>a\<close> and \<open>b\<close> (the keys of \<open>b\<close> unique) with the
  component names of \<open>a\<close> a proper subset of those of \<open>b\<close>, \<open>b - a\<close> returns a species whose
  components are those of \<open>b\<close> whose name is not in \<open>a\<close>, each with the record it has in
  \<open>b\<close>, and with the flag of \<open>b\<close>; when the two sets of names are equal, \<open>b - a\<close> raises
  the empty-sum error. With \<open>HOx = OH + HO2\<close>, \<open>HOx - HO2\<close> has the components and the
  flag of \<open>OH\<close>.
\<close>

theorem Species_sub_proper_subset:
  "(wf_species b \<and> \<not> exclude a \<and> \<not> exclude b \<and> set (names a) \<subset> set (names b) \<longrightarrow>
      (\<exists>r. Species_sub b (PySpecies a) = Inr r \<and>
           spc_dict r = filter (\<lambda>i. fst i \<notin> set (names a)) (spc_dict b) \<and>
           set (names r) = set (names b) - set (names a) \<and>
           (\<forall>n \<in> set (names r). map_of (spc_dict r) n = map_of (spc_dict b) n) \<and>
           exclude r = exclude b))
   \<and> (\<not> exclude a \<and> \<not> exclude b \<and> set (names a) = set (names b) \<longrightarrow>
        Species_sub b (PySpecies a) = Inl (ValueError empty_sum_msg))
   \<and> (\<exists>hox r. Species_add OH (PySpecies HO2) = Inr hox \<and>
         Species_sub hox (PySpecies HO2) = Inr r \<and>
         spc_dict r = spc_dict OH \<and> exclude r = exclude OH)"
proof (intro conjI impI)
  assume h: "\<not> exclude a \<and> \<not> exclude b \<and> set (names a) = set (names b)"
  then have "net_include [b, Species_neg a] = {}" and "net_exclude [b, Species_neg a] = {}"
    by (auto simp: set_defs Species_neg_def spc_dict_init exclude_init)
  then show "Species_sub b (PySpecies a) = Inl (ValueError empty_sum_msg)"
    unfolding Species_sub_Species species_sum_Species by simp
next
  assume h: "wf_species b \<and> \<not> exclude a \<and> \<not> exclude b \<and> set (names a) \<subset> set (names b)"
  let ?N = "set (names b) - set (names a)"
  from h have inc: "net_include [b, Species_neg a] = ?N"
    by (auto simp: set_defs Species_neg_def spc_dict_init exclude_init)
  from h have ne: "?N \<noteq> {}"
    by auto
  from h have dist: "distinct (map fst (spc_dict b))" and wfp: "\<forall>i \<in> set (spc_dict b). wf_props (snd i)"
    by (auto simp: wf_species_def list_all_iff)
  have "accumulate_all ?N [b, Species_neg a] =
      fold (accumulate ?N) (spc_dict a) (fold (accumulate ?N) (spc_dict b) [])"
    by (simp add: accumulate_all_def Species_neg_def spc_dict_init)
  also have "fold (accumulate ?N) (spc_dict b) [] = filter (\<lambda>i. fst i \<in> ?N) (spc_dict b)"
    using fold_accumulate_fresh [OF dist _ wfp, of "[]" ?N] by simp
  also have "fold (accumulate ?N) (spc_dict a) (filter (\<lambda>i. fst i \<in> ?N) (spc_dict b))
      = filter (\<lambda>i. fst i \<in> ?N) (spc_dict b)"
    by (rule fold_accumulate_none) (simp add: names_def)
  also have "filter (\<lambda>i. fst i \<in> ?N) (spc_dict b) = filter (\<lambda>i. fst i \<notin> set (names a)) (spc_dict b)"
    by (rule filter_cong) (auto simp: names_def)
  finally have acc: "accumulate_all ?N [b, Species_neg a]
      = filter (\<lambda>i. fst i \<notin> set (names a)) (spc_dict b)" .
  define r where "r = Species_init (raw_dict (accumulate_all ?N [b, Species_neg a])) None False"
  have res: "Species_sub b (PySpecies a) = Inr r"
    unfolding Species_sub_Species species_sum_Species inc r_def using ne by simp
  have d: "spc_dict r = filter (\<lambda>i. fst i \<notin> set (names a)) (spc_dict b)"
    by (simp add: r_def spc_dict_init acc)
  have nm: "set (names r) = ?N"
    unfolding names_def d by auto
  have keep: "\<forall>n \<in> set (names r). map_of (spc_dict r) n = map_of (spc_dict b) n"
    unfolding nm d by (simp add: map_of_filter_key [where P = "\<lambda>k. k \<notin> set (names a)"])
  have e: "exclude r = exclude b"
    using h by (simp add: r_def exclude_init)
  from res d nm keep e
  show "\<exists>r. Species_sub b (PySpecies a) = Inr r \<and>
           spc_dict r = filter (\<lambda>i. fst i \<notin> set (names a)) (spc_dict b) \<and>
           set (names r) = set (names b) - set (names a) \<and>
           (\<forall>n \<in> set (names r). map_of (spc_dict r) n = map_of (spc_dict b) n) \<and>
           exclude r = exclude b"
    by blast
next
  define hox where "hox = \<lparr> name = ''OH+HO2'', exclude = False,
     spc_dict = [(''OH'', \<lparr> stoic = 1, role = {CHR ''r'', CHR ''u'', CHR ''p''},
                             atoms = [(''H'', 1), (''O'', 1)] \<rparr>),
                 (''HO2'', \<lparr> stoic = 1, role = {CHR ''r'', CHR ''u'', CHR ''p''},
                             atoms = [(''H'', 1), (''O'', 2)] \<rparr>)] \<rparr>"
  define r where "r = \<lparr> name = ''OH'', exclude = False,
     spc_dict = [(''OH'', \<lparr> stoic = 1, role = {CHR ''r'', CHR ''u'', CHR ''p''},
                             atoms = [(''H'', 1), (''O'', 1)] \<rparr>)] \<rparr>"
  have 1: "Species_add OH (PySpecies HO2) = Inr hox"
    by (simp add: hox_def sum_eval_defs test_species_defs insert_commute)
  have 2: "Species_sub hox (PySpecies HO2) = Inr r"
    by (simp add: hox_def r_def sum_eval_defs test_species_defs insert_commute)
  have 3: "spc_dict r = spc_dict OH \<and> exclude r = exclude OH"
    by (simp add: r_def test_species_defs)
  from 1 2 3 show "\<exists>hox r. Species_add OH (PySpecies HO2) = Inr hox \<and>
         Species_sub hox (PySpecies HO2) = Inr r \<and>
         spc_dict r = spc_dict OH \<and> exclude r = exclude OH"
    by blast
qed

text \<open>
  Claim C3 (amended) at \<open>HOx - HO2\<close>, for the aggregate \<open>HOx\<close> of the test suite, and at
  \<open>HO2 - HO2\<close>.
\<close>

theorem Species_sub_proper_subset_witness:
  "wf_species HOx \<and> \<not> exclude HO2 \<and> \<not> exclude HOx \<and> set (names HO2) \<subset> set (names HOx) \<and>
   (\<exists>r. Species_sub HOx (PySpecies HO2) = Inr r \<and> spc_dict r = spc_dict OH \<and>
        exclude r = exclude OH) \<and>
   set (names HO2) = set (names HO2) \<and>
   Species_sub HO2 (PySpecies HO2) = Inl (ValueError empty_sum_msg)"
proof -
  have "\<not> exclude HO2 \<and> \<not> exclude HO2 \<and> set (names HO2) = set (names HO2)"
    by (simp add: test_species_defs)
  with Species_sub_proper_subset [of HO2 HO2]
  have eq: "Species_sub HO2 (PySpecies HO2) = Inl (ValueError empty_sum_msg)"
    by blast
  have h: "wf_species HOx \<and> \<not> exclude HO2 \<and> \<not> exclude HOx \<and> set (names HO2) \<subset> set (names HOx)"
    by (auto simp: wf_species_def wf_props_def names_def test_species_defs)
  have f: "filter (\<lambda>i. fst i \<notin> set (names HO2)) (spc_dict HOx) = spc_dict OH"
    by (simp add: names_def test_species_defs)
  have e: "exclude HOx = exclude OH"
    by (simp add: test_species_defs)
  from Species_sub_proper_subset [of HOx HO2] h
  have "\<exists>r. Species_sub HOx (PySpecies HO2) = Inr r \<and>
           spc_dict r = filter (\<lambda>i. fst i \<notin> set (names HO2)) (spc_dict HOx) \<and>
           exclude r = exclude HOx"
    by blast
  with h f e eq show ?thesis
    by simp
qed

section \<open>Negation\<close>

text \<open>What \<open>__neg__\<close> returns: the components are kept, the name is wrapped, the flag is set.\<close>

lemma Species_neg_result:
  "spc_dict (Species_neg s) = spc_dict s \<and> exclude (Species_neg s) = True
     \<and> name (Species_neg s) = ''-('' @ name s @ '')''"
  by (simp add: Species_neg_def spc_dict_init exclude_init name_init_Some)

text \<open>
  Claim C8, evaluated at \<open>-(-OH)\<close>: \<open>-OH\<close> excludes, and its negation excludes again, so the
  flag of the negation of an excluding species is not flipped. As a consequence
  \<open>HOx - (-HO2)\<close> removes \<open>HO2\<close> as \<open>HOx - HO2\<close> does and has the components of \<open>OH\<close>.
\<close>

theorem Species_neg_of_excluding:
  "exclude (Species_neg OH) = True \<and>
   exclude (Species_neg (Species_neg OH)) = True \<and>
   exclude (Species_neg (Species_neg OH)) \<noteq> (\<not> exclude (Species_neg OH)) \<and>
   Species_sub HOx (PySpecies (Species_neg HO2)) = Species_sub HOx (PySpecies HO2) \<and>
   (\<exists>r. Species_sub HOx (PySpecies (Species_neg HO2)) = Inr r \<and> spc_dict r = spc_dict OH)"
proof -
  have 1: "exclude (Species_neg OH) = True" "exclude (Species_neg (Species_neg OH)) = True"
    by (simp_all add: Species_neg_def exclude_init)
  define r where "r = \<lparr> name = ''OH'', exclude = False,
     spc_dict = [(''OH'', \<lparr> stoic = 1, role = {CHR ''r'', CHR ''u'', CHR ''p''},
                             atoms = [(''H'', 1), (''O'', 1)] \<rparr>)] \<rparr>"
  have 2: "Species_sub HOx (PySpecies (Species_neg HO2)) = Inr r"
    by (simp add: r_def sum_eval_defs test_species_defs insert_commute)
  have 3: "Species_sub HOx (PySpecies HO2) = Inr r"
    by (simp add: r_def sum_eval_defs test_species_defs insert_commute)
  have 4: "spc_dict r = spc_dict OH"
    by (simp add: r_def test_species_defs)
  from 1 2 3 4 show ?thesis
    by auto
qed

section \<open>Scalar multiplication\<close>









section \<open>Subset extraction\<close>

text \<open>
  Claim C10: when \<open>a[p]\<close> returns a species, its flag \<open>exclude\<close> is that of the probe
  (\<open>False\<close> for a probe given as a bare name), and the result is the same whatever the
  flag of \<open>a\<close> is.
\<close>

theorem getitem_exclude_from_probe:
  assumes "Species_getitem a spc_key = Inr r"
  shows "exclude r = (case spc_key of PySpecies p \<Rightarrow> exclude p | _ \<Rightarrow> False)
         \<and> Species_getitem (a\<lparr>exclude := e\<rparr>) spc_key = Inr r"
  using assms
  by (auto simp: Species_getitem_def getitem_species_def Let_def exclude_init
           split: pyval.splits if_splits)

text \<open>
  Claim C10 at the excluding species \<open>-OH\<close> and the bare name \<open>OH\<close>: the result does not
  exclude.
\<close>

theorem getitem_exclude_from_probe_witness:
  "(\<exists>r. Species_getitem (Species_neg OH) (PyStr ''OH'') = Inr r \<and> exclude (Species_neg OH) \<and> \<not> exclude r)"
proof -
  have "Species_getitem (Species_neg OH) (PyStr ''OH'') =
          Inr \<lparr> name = ''OH'', exclude = False,
                spc_dict = [(''OH'', \<lparr> stoic = 1, role = {CHR ''r'', CHR ''p'', CHR ''u''},
                                        atoms = [(''H'', 1), (''O'', 1)] \<rparr>)] \<rparr>"
    by (simp add: Species_getitem_def getitem_species_def getitem_step_def dict_update_def
          Species_neg_def raw_dict_def as_raw_def synth_name_def test_species_defs)
  from getitem_exclude_from_probe [OF this, of True] this show ?thesis
    by (simp add: Species_neg_def exclude_init)
qed

section \<open>Guessing atoms from a name\<close>

text \<open>A name without a digit gives no match at all, whatever the atom table is.\<close>

lemma takeWhile_none: "\<forall>c \<in> set xs. \<not> P c \<Longrightarrow> takeWhile P xs = []"
  by (cases xs) auto

lemma match_here_no_digit:
  assumes "\<forall>c \<in> set s. \<not> is_digit c"
  shows "match_here alts s = None"
proof (induction alts)
  case Nil
  show ?case by simp
next
  case (Cons a alts)
  have "set (take 10 (dropWhile is_space (drop (length a) s))) \<subseteq> set s"
    by (meson set_take_subset set_dropWhileD set_drop_subset subsetI subsetD)
  with assms have "takeWhile is_digit (take 10 (dropWhile is_space (drop (length a) s))) = []"
    by (intro takeWhile_none) blast
  with Cons.IH show ?case
    by (simp add: Let_def)
qed

lemma atre_findall_no_digit:
  "\<forall>c \<in> set s. \<not> is_digit c \<Longrightarrow> atre_findall alts s = []"
proof (induction s)
  case Nil
  show ?case
    by (subst atre_findall.simps) (simp add: match_here_no_digit del: atre_findall.simps)
next
  case (Cons c s)
  from Cons.prems have "match_here alts (c # s) = None"
    by (rule match_here_no_digit)
  moreover from Cons have "atre_findall alts s = []"
    by simp
  ultimately show ?case
    by (subst atre_findall.simps) (simp del: atre_findall.simps)
qed

lemma atom_guess_no_digits:
  assumes "CHR ''+'' \<notin> set spc_name" and "\<forall>c \<in> set spc_name. \<not> is_digit c"
  shows "atom_guess atom_parse ALL_ATOMS spc_name = []"
proof -
  from assms(2) have "\<not> (case spc_name of [] \<Rightarrow> False | c # cs \<Rightarrow> is_digit c)"
    by (cases spc_name) simp_all
  with assms show ?thesis
    by (simp add: atom_guess_def atre_findall_no_digit del: atre_findall.simps)
qed

text \<open>
  Claim C9, evaluated on the names \<open>OH\<close> and \<open>HO2\<close> with the known atoms \<open>H\<close> and \<open>O\<close>:
  the pattern asks for at least one digit behind a symbol, so a symbol without a digit is
  not counted. \<open>OH\<close> gives the empty mapping, and \<open>HO2\<close> gives two \<open>O\<close> and no \<open>H\<close>.
\<close>

theorem atom_guess_needs_digits:
  "atom_guess atom_parse [''H'', ''O''] ''OH'' = [] \<and>
   atom_guess atom_parse [''H'', ''O''] ''HO2'' = [(''O'', 2)]"
  by (simp add: atom_guess_def is_digit_def is_space_def guess_step_def int_of_digits_def)

section \<open>Reaction queries\<close>

lemma matching_iff:
  "matching has rd ss = {n. \<exists>r. (n, r) \<in> set rd \<and> (\<forall>s \<in> set ss. has r s)}"
  by (force simp: matching_def list_all_iff)

lemma matching_Nil: "matching has rd [] = fst ` set rd"
  by (auto simp: matching_def)

lemma select_rxns_sorted_set:
  "select_rxns has_rct has_prd rd rs ps logical_and =
     sorted_list_of_set
       (if logical_and then matching has_rct rd rs \<inter> matching has_prd rd ps
        else matching has_rct rd rs \<union> matching has_prd rd ps)"
proof -
  define rr where "rr = (if rs \<noteq> []
             then map fst (filter (\<lambda>(rxn_name, rxn). list_all (has_rct rxn) rs) rd)
             else map fst rd)"
  define pr where "pr = (if ps \<noteq> []
             then map fst (filter (\<lambda>(rxn_name, rxn). list_all (has_prd rxn) ps) rd)
             else map fst rd)"
  have rr: "set rr = matching has_rct rd rs"
    by (cases "rs = []") (simp_all add: rr_def matching_def)
  have pr: "set pr = matching has_prd rd ps"
    by (cases "ps = []") (simp_all add: pr_def matching_def)
  have "select_rxns has_rct has_prd rd rs ps logical_and =
      (if logical_and then sort (remdups (filter (\<lambda>n. n \<in> set pr) rr))
       else sort (remdups (rr @ pr)))"
    by (simp add: select_rxns_def rr_def pr_def Let_def)
  also have "\<dots> = sorted_list_of_set (if logical_and then set rr \<inter> set pr else set rr \<union> set pr)"
  proof (cases logical_and)
    case True
    have "set (filter (\<lambda>n. n \<in> set pr) rr) = set rr \<inter> set pr"
      by auto
    with True show ?thesis
      by (simp add: sorted_list_of_set_sort_remdups [symmetric])
  next
    case False
    then show ?thesis
      by (simp add: sorted_list_of_set_sort_remdups [symmetric])
  qed
  finally show ?thesis
    by (simp add: rr pr)
qed

lemma finite_matching: "finite (matching has rd ss)"
  by (simp add: matching_def)

lemma resolves_ensure: "resolves getitem x s \<Longrightarrow> ensure_species getitem x = Inr s"
  by (cases x) (simp_all add: resolves_def)

lemma resolves_ensure_all:
  "list_all2 (resolves getitem) xs ss \<Longrightarrow> ensure_all getitem xs = Inr ss"
  by (induction xs ss rule: list_all2_induct) (simp_all add: resolves_ensure)

lemma denotes_ensure_all:
  assumes "denotes getitem q ss"
  shows "ensure_all getitem (as_list q) = Inr ss"
proof (cases q)
  case (One x)
  with assms obtain s where "ss = [s]" "resolves getitem x s"
    by (auto simp: denotes_def split: list.splits)
  with One show ?thesis
    by (simp add: resolves_ensure)
next
  case (Many xs)
  with assms show ?thesis
    by (simp add: denotes_def resolves_ensure_all)
qed


text \<open>
  Claim C5: when the reactants argument denotes the species \<open>rs\<close> and the products
  argument the species \<open>ps\<close>, \<open>find_rxns\<close> returns the names of the reactions that satisfy
  \<open>has_rct\<close> for every species of \<open>rs\<close>, intersected (\<open>logical_and\<close>) or united (otherwise)
  with those that satisfy \<open>has_prd\<close> for every species of \<open>ps\<close>; an empty filter matches
  every reaction; the list is sorted by name, without repetition, and is the one sorted
  list of its set, so the same query on the same registry gives the same list.
\<close>

theorem find_rxns_conjunctive:
  assumes "denotes getitem reactants rs"
    and "denotes getitem products ps"
  shows "\<exists>result. find_rxns getitem has_rct has_prd rd reactants products logical_and = Inr result
     \<and> set result = (if logical_and then matching has_rct rd rs \<inter> matching has_prd rd ps
                      else matching has_rct rd rs \<union> matching has_prd rd ps)
     \<and> sorted result \<and> distinct result
     \<and> result = sorted_list_of_set (set result)
     \<and> matching has_rct rd rs = {n. \<exists>r. (n, r) \<in> set rd \<and> (\<forall>s \<in> set rs. has_rct r s)}
     \<and> matching has_prd rd ps = {n. \<exists>r. (n, r) \<in> set rd \<and> (\<forall>s \<in> set ps. has_prd r s)}
     \<and> (rs = [] \<longrightarrow> matching has_rct rd rs = fst ` set rd)
     \<and> (ps = [] \<longrightarrow> matching has_prd rd ps = fst ` set rd)"
proof -
  let ?S = "if logical_and then matching has_rct rd rs \<inter> matching has_prd rd ps
            else matching has_rct rd rs \<union> matching has_prd rd ps"
  have fin: "finite ?S"
    by (simp add: finite_matching)
  from assms have "find_rxns getitem has_rct has_prd rd reactants products logical_and
      = Inr (sorted_list_of_set ?S)"
    by (simp add: find_rxns_def select_rxns_sorted_set denotes_ensure_all)
  moreover from fin have "set (sorted_list_of_set ?S) = ?S"
    by simp
  moreover have "sorted (sorted_list_of_set ?S)" "distinct (sorted_list_of_set ?S)"
    by simp_all
  ultimately show ?thesis
    by (simp add: matching_iff [symmetric] matching_Nil)
qed

text \<open>
  Claim C5 on a registry of four reactions, each a pair of its reactant and its product
  names: the reactions with both \<open>OH\<close> and \<open>O3\<close> as reactants, alone, and combined with
  those that produce \<open>HO2\<close> by intersection and by union.
\<close>

theorem find_rxns_conjunctive_witness:
  "denotes (\<lambda>n. if n = ''OH'' then Inr OH else Inl KeyError) (Many [Name ''OH'', Spc O3]) [OH, O3]
   \<and> denotes (\<lambda>n. if n = ''OH'' then Inr OH else Inl KeyError) (One (Spc HO2)) [HO2]
   \<and> denotes (\<lambda>n. if n = ''OH'' then Inr OH else Inl KeyError) (Many []) []
   \<and> find_rxns (\<lambda>n. if n = ''OH'' then Inr OH else Inl KeyError)
        (\<lambda>r s. list_all (\<lambda>n. n \<in> set (fst r)) (names s))
        (\<lambda>r s. list_all (\<lambda>n. n \<in> set (snd r)) (names s))
        [(''R3'', ([''OH'', ''O3''], [''HO2''])), (''R2'', ([''OH''], [''HO2''])),
         (''R1'', ([''O3'', ''OH''], [''O3''])), (''R0'', ([''O3''], [''HO2'']))]
        (Many [Name ''OH'', Spc O3]) (Many []) True = Inr [''R1'', ''R3'']
   \<and> find_rxns (\<lambda>n. if n = ''OH'' then Inr OH else Inl KeyError)
        (\<lambda>r s. list_all (\<lambda>n. n \<in> set (fst r)) (names s))
        (\<lambda>r s. list_all (\<lambda>n. n \<in> set (snd r)) (names s))
        [(''R3'', ([''OH'', ''O3''], [''HO2''])), (''R2'', ([''OH''], [''HO2''])),
         (''R1'', ([''O3'', ''OH''], [''O3''])), (''R0'', ([''O3''], [''HO2'']))]
        (Many [Name ''OH'', Spc O3]) (One (Spc HO2)) True = Inr [''R3'']
   \<and> find_rxns (\<lambda>n. if n = ''OH'' then Inr OH else Inl KeyError)
        (\<lambda>r s. list_all (\<lambda>n. n \<in> set (fst r)) (names s))
        (\<lambda>r s. list_all (\<lambda>n. n \<in> set (snd r)) (names s))
        [(''R3'', ([''OH'', ''O3''], [''HO2''])), (''R2'', ([''OH''], [''HO2''])),
         (''R1'', ([''O3'', ''OH''], [''O3''])), (''R0'', ([''O3''], [''HO2'']))]
        (Many [Name ''OH'', Spc O3]) (One (Spc HO2)) False = Inr [''R0'', ''R1'', ''R2'', ''R3'']
   \<and> sorted [''R0'', ''R1'', ''R2'', ''R3'']
   \<and> set [''R3''] =
       matching (\<lambda>r s. list_all (\<lambda>n. n \<in> set (fst r)) (names s))
         [(''R3'', ([''OH'', ''O3''], [''HO2''])), (''R2'', ([''OH''], [''HO2''])),
          (''R1'', ([''O3'', ''OH''], [''O3''])), (''R0'', ([''O3''], [''HO2'']))] [OH, O3]
       \<inter> matching (\<lambda>r s. list_all (\<lambda>n. n \<in> set (snd r)) (names s))
         [(''R3'', ([''OH'', ''O3''], [''HO2''])), (''R2'', ([''OH''], [''HO2''])),
          (''R1'', ([''O3'', ''OH''], [''O3''])), (''R0'', ([''O3''], [''HO2'']))] [HO2]"
proof -
  let ?get = "\<lambda>n. if n = ''OH'' then Inr OH else Inl KeyError"
  let ?rct = "\<lambda>(r :: string list \<times> string list) s. list_all (\<lambda>n. n \<in> set (fst r)) (names s)"
  let ?prd = "\<lambda>(r :: string list \<times> string list) s. list_all (\<lambda>n. n \<in> set (snd r)) (names s)"
  let ?rd = "[(''R3'', ([''OH'', ''O3''], [''HO2''])), (''R2'', ([''OH''], [''HO2''])),
         (''R1'', ([''O3'', ''OH''], [''O3''])), (''R0'', ([''O3''], [''HO2'']))]"
  have a: "denotes ?get (Many [Name ''OH'', Spc O3]) [OH, O3]"
    by (simp add: denotes_def resolves_def)
  have b: "denotes ?get (One (Spc HO2)) [HO2]"
    by (simp add: denotes_def resolves_def)
  have c: "denotes ?get (Many []) []"
    by (simp add: denotes_def)
  have q1: "find_rxns ?get ?rct ?prd ?rd (Many [Name ''OH'', Spc O3]) (Many []) True
      = Inr [''R1'', ''R3'']"
    by (simp add: find_rxns_def select_rxns_def names_def test_species_defs
          less_eq_char_def less_char_def del: set_filter)
  have q2: "find_rxns ?get ?rct ?prd ?rd (Many [Name ''OH'', Spc O3]) (One (Spc HO2)) True
      = Inr [''R3'']"
    by (simp add: find_rxns_def select_rxns_def names_def test_species_defs
          less_eq_char_def less_char_def del: set_filter)
  have q3': "find_rxns ?get ?rct ?prd ?rd (Many [Name ''OH'', Spc O3]) (One (Spc HO2)) False
      = Inr [''R0'', ''R1'', ''R2'', ''R3'']"
    by (simp add: find_rxns_def select_rxns_def names_def test_species_defs
          less_eq_char_def less_char_def del: set_filter)
  from find_rxns_conjunctive [OF a b, of ?rct ?prd ?rd False] q3'
  have q3: "find_rxns ?get ?rct ?prd ?rd (Many [Name ''OH'', Spc O3]) (One (Spc HO2)) False
      = Inr [''R0'', ''R1'', ''R2'', ''R3''] \<and> sorted [''R0'', ''R1'', ''R2'', ''R3'']"
    by auto
  from find_rxns_conjunctive [OF a b, of ?rct ?prd ?rd True] q2
  have q4: "set [''R3''] = matching ?rct ?rd [OH, O3] \<inter> matching ?prd ?rd [HO2]"
    by auto
  from find_rxns_conjunctive [OF a c, of ?rct ?prd ?rd True] q1
  have q5: "distinct [''R1'', ''R3'']"
    by auto
  from a b c q1 q2 q3 q4 q5 show ?thesis
    by blast
qed

section \<open>Net reactions\<close>

text \<open>\<open>make_net_rxn\<close> evaluates the names found, joined by \<open>+\<close>.\<close>

lemma make_net_rxn_eval:
  "find_rxns getitem has_rct has_prd rd reactants products logical_and = Inr rxns \<Longrightarrow>
   make_net_rxn py_eval getitem has_rct has_prd rd reactants products logical_and
     = py_eval (join '' + '' rxns)"
  by (simp add: make_net_rxn_def)

text \<open>
  Claim C6, evaluated on a mechanism without reactions: \<open>find_rxns\<close> returns the empty
  list and \<open>make_net_rxn\<close> hands the empty expression to \<open>eval\<close>; the result is whatever
  \<open>eval\<close> makes of the empty string, with no check of its own.
\<close>

theorem make_net_rxn_empty_match:
  "find_rxns getitem has_rct has_prd [] (Many []) (Many []) logical_and = Inr [] \<and>
   make_net_rxn py_eval getitem has_rct has_prd [] (Many []) (Many []) logical_and = py_eval ''''"
  by (simp add: make_net_rxn_def find_rxns_def select_rxns_def)

end
